theory Spec2Isabelle
  imports Main
begin

section \<open>Data model\<close>

text \<open>
  The machine service of \<^verbatim>\<open>src/handler/api.ts\<close>: an \<^verbatim>\<open>ApiHandler\<close> that reserves a
  machine at a location, reads a machine's state through a cache, and starts a machine's
  cycle through an external client. The handler works on three collaborators, all
  singletons: the table of machine documents, the cache, and the smart-machine client.
\<close>

text \<open>
  Modelled from the spec: the schema (\<^verbatim>\<open>database/schema.ts\<close>) and the request and
  response models (\<^verbatim>\<open>handler/model.ts\<close>) are not among the sources. The two enums
  have the members the handler names, which are the states and the status codes the
  specification lists. A machine record has the four fields of the specification's data
  model: \<^verbatim>\<open>machineId\<close> and \<^verbatim>\<open>status\<close>, which the handler reads, \<^verbatim>\<open>locationId\<close>, and
  a nullable \<^verbatim>\<open>jobId\<close>.
\<close>

datatype MachineStatus = AVAILABLE | AWAITING_DROPOFF | RUNNING | ERROR

datatype HttpResponseCode =
  OK | NOT_FOUND | BAD_REQUEST | UNAUTHORIZED | HARDWARE_ERROR | INTERNAL_SERVER_ERROR

record MachineStateDocument =
  machineId :: string
  locationId :: string
  status :: MachineStatus
  jobId :: "string option"

text \<open>
  A response is a status code and a \<^verbatim>\<open>machine\<close> property. The handlers leave the
  property out on their failure returns, \<^verbatim>\<open>handle\<close> sets it to \<^verbatim>\<open>null\<close> on its
  fall-through return, and the other returns carry a document: three cases.
\<close>

datatype MachineField = Omitted | Null | Machine MachineStateDocument

record MachineResponseModel =
  statusCode :: HttpResponseCode
  machine :: MachineField

text \<open>
  The table is used through four methods. It is a parameter of the model: a state type
  \<open>'s\<close> and the four methods as functions on it. The two queries return documents as
  they are when read and leave the table as it is; the two updates return the table they
  leave behind.

  A document a query returns is an object of the table class, and the handler may still
  hold it when it writes to the table. Whether such a write shows in an object handed
  out before it is decided by the table class: a table that lists the objects it stores
  and updates them in place changes them, a table that lists copies does not. The
  parameter carries this as a fifth component: \<open>fieldsShown T s d\<close> is the status and
  the job id shown by the object that was handed out as \<open>d\<close>, once the table is in
  state \<open>s\<close>. These are the two fields the updates write; \<^verbatim>\<open>machineId\<close> and
  \<^verbatim>\<open>locationId\<close> do not change.
\<close>

record 's MachineStateTable =
  listMachinesAtLocation :: "'s \<Rightarrow> string \<Rightarrow> MachineStateDocument list"
  getMachine :: "'s \<Rightarrow> string \<Rightarrow> MachineStateDocument option"
  updateMachineStatus :: "'s \<Rightarrow> string \<Rightarrow> MachineStatus \<Rightarrow> 's"
  updateMachineJobId :: "'s \<Rightarrow> string \<Rightarrow> string \<Rightarrow> 's"
  fieldsShown :: "'s \<Rightarrow> MachineStateDocument \<Rightarrow> MachineStatus \<times> string option"

text \<open>
  The smart-machine client: \<^verbatim>\<open>startCycle(machineId)\<close> either returns or throws.
  \<open>True\<close> stands for a normal return, \<open>False\<close> for a throw.
\<close>

type_synonym SmartMachineClient = "string \<Rightarrow> bool"

text \<open>
  Modelled from the spec: the cache class (\<^verbatim>\<open>database/cache.ts\<close>) is not among the
  sources. The specification gives it \<^verbatim>\<open>get(key) -> Optional<Record>\<close> and
  \<^verbatim>\<open>put(key, value) -> void\<close>, with no effect beyond the mapping and no expiry, and
  says that the cache owns a copy of the record: a map from machine ids to documents,
  \<^verbatim>\<open>get\<close> the lookup and \<^verbatim>\<open>put\<close> the update, an entry being the document as it is
  when it is put.

  The state the handler works on is the table, the cache, and the machine ids
  \<^verbatim>\<open>startCycle\<close> has been called with, oldest first.
\<close>

record 's World =
  table :: 's
  cache :: "string \<rightharpoonup> MachineStateDocument"
  startCycleCalls :: "string list"

section \<open>The handlers\<close>

text \<open>
  \<^verbatim>\<open>handleRequestMachine\<close>: the first machine of the listing whose status is
  \<^verbatim>\<open>AVAILABLE\<close> (\<^verbatim>\<open>Array.prototype.find\<close>); none gives \<^verbatim>\<open>NOT_FOUND\<close>. Otherwise
  the status and the job id are written to the table under the machine's id, and
  \<^verbatim>\<open>availableMachine\<close>, the object found in the listing, is put into the cache and
  returned. The handler does not read the machine again: the cache entry and the
  response are that object as it shows after the two writes.
\<close>

definition handleRequestMachine ::
  "'s MachineStateTable \<Rightarrow> string \<Rightarrow> string \<Rightarrow> 's World \<Rightarrow> MachineResponseModel \<times> 's World"
where
  "handleRequestMachine T locId jId w =
     (let machines = listMachinesAtLocation T (table w) locId in
      case find (\<lambda>m. status m = AVAILABLE) machines of
        None \<Rightarrow> (\<lparr>statusCode = NOT_FOUND, machine = Omitted\<rparr>, w)
      | Some availableMachine \<Rightarrow>
          let t1 = updateMachineStatus T (table w) (machineId availableMachine) AWAITING_DROPOFF;
              t2 = updateMachineJobId T t1 (machineId availableMachine) jId;
              held = availableMachine
                       \<lparr>status := fst (fieldsShown T t2 availableMachine),
                        jobId := snd (fieldsShown T t2 availableMachine)\<rparr>;
              c = (cache w)(machineId availableMachine \<mapsto> held)
          in (\<lparr>statusCode = OK, machine = Machine held\<rparr>,
              w\<lparr>table := t2, cache := c\<rparr>))"

text \<open>
  \<^verbatim>\<open>handleGetMachine\<close>: a cached document is returned as it is; on a miss the table
  is asked, and a document found there is put into the cache and returned.
\<close>

definition handleGetMachine ::
  "'s MachineStateTable \<Rightarrow> string \<Rightarrow> 's World \<Rightarrow> MachineResponseModel \<times> 's World"
where
  "handleGetMachine T mId w =
     (case cache w mId of
        Some cachedMachine \<Rightarrow> (\<lparr>statusCode = OK, machine = Machine cachedMachine\<rparr>, w)
      | None \<Rightarrow>
          (case getMachine T (table w) mId of
             None \<Rightarrow> (\<lparr>statusCode = NOT_FOUND, machine = Omitted\<rparr>, w)
           | Some m \<Rightarrow>
               (\<lparr>statusCode = OK, machine = Machine m\<rparr>,
                w\<lparr>cache := (cache w)(mId \<mapsto> m)\<rparr>)))"

text \<open>
  \<^verbatim>\<open>handleStartMachine\<close>: the machine is read from the table; a missing machine gives
  \<^verbatim>\<open>NOT_FOUND\<close>, a status other than \<^verbatim>\<open>AWAITING_DROPOFF\<close> gives \<^verbatim>\<open>BAD_REQUEST\<close>
  with the document read. Otherwise \<^verbatim>\<open>startCycle\<close> is called. The \<^verbatim>\<open>try\<close> branch
  and the \<^verbatim>\<open>catch\<close> branch do the same three things with a different status and
  response code: write the status, read the machine again, and put what was read into
  the cache; a second read that finds nothing gives \<^verbatim>\<open>INTERNAL_SERVER_ERROR\<close>.
\<close>

definition handleStartMachine ::
  "'s MachineStateTable \<Rightarrow> SmartMachineClient \<Rightarrow> string \<Rightarrow> 's World
     \<Rightarrow> MachineResponseModel \<times> 's World"
where
  "handleStartMachine T startCycle mId w =
     (case getMachine T (table w) mId of
        None \<Rightarrow> (\<lparr>statusCode = NOT_FOUND, machine = Omitted\<rparr>, w)
      | Some m \<Rightarrow>
          if status m \<noteq> AWAITING_DROPOFF
          then (\<lparr>statusCode = BAD_REQUEST, machine = Machine m\<rparr>, w)
          else
            let w1 = w\<lparr>startCycleCalls := startCycleCalls w @ [mId]\<rparr> in
            if startCycle mId
            then
              (let t1 = updateMachineStatus T (table w1) mId RUNNING in
               case getMachine T t1 mId of
                 None \<Rightarrow>
                   (\<lparr>statusCode = INTERNAL_SERVER_ERROR, machine = Omitted\<rparr>, w1\<lparr>table := t1\<rparr>)
               | Some updatedMachine \<Rightarrow>
                   (\<lparr>statusCode = OK, machine = Machine updatedMachine\<rparr>,
                    w1\<lparr>table := t1, cache := (cache w1)(mId \<mapsto> updatedMachine)\<rparr>))
            else
              (let t1 = updateMachineStatus T (table w1) mId ERROR in
               case getMachine T t1 mId of
                 None \<Rightarrow>
                   (\<lparr>statusCode = INTERNAL_SERVER_ERROR, machine = Omitted\<rparr>, w1\<lparr>table := t1\<rparr>)
               | Some errorMachine \<Rightarrow>
                   (\<lparr>statusCode = HARDWARE_ERROR, machine = Machine errorMachine\<rparr>,
                    w1\<lparr>table := t1, cache := (cache w1)(mId \<mapsto> errorMachine)\<rparr>)))"

section \<open>Routing\<close>

text \<open>
  A request carries a method, a path and a token, and for the reservation route the
  location and job ids the handler reads from it (\<^verbatim>\<open>request as
  RequestMachineRequestModel\<close>).
\<close>

record RequestModel =
  httpMethod :: string
  path :: string
  token :: string
  reqLocationId :: string
  reqJobId :: string

text \<open>
  \<^verbatim>\<open>checkToken\<close> throws an \<^verbatim>\<open>Error\<close> whose message is the JSON of a status code
  and a text; the thrown value is modelled by those two.
\<close>

datatype Thrown = Error HttpResponseCode string

definition checkToken :: "(string \<Rightarrow> bool) \<Rightarrow> string \<Rightarrow> Thrown option" where
  "checkToken validateToken tok =
     (if \<not> validateToken tok then Some (Error UNAUTHORIZED ''Invalid token'') else None)"

text \<open>
  The two regular expressions of \<^verbatim>\<open>handle\<close>. Both are anchored at both ends and
  start with \<^verbatim>\<open>/machine/\<close>; the group \<^verbatim>\<open>([a-zA-Z0-9-]+)\<close> is a non-empty run of
  characters of the class. The class has no \<^verbatim>\<open>/\<close>, so the group of the second
  expression is the longest such run and \<^verbatim>\<open>/start\<close> is all that follows it.
  The result is the captured group, \<open>None\<close> when the expression does not match.
\<close>

definition idChar :: "char \<Rightarrow> bool" where
  "idChar c \<longleftrightarrow>
     c \<in> set ''abcdefghijklmnopqrstuvwxyzABCDEFGHIJKLMNOPQRSTUVWXYZ0123456789-''"

fun stripPrefix :: "string \<Rightarrow> string \<Rightarrow> string option" where
  "stripPrefix [] s = Some s"
| "stripPrefix (p # ps) [] = None"
| "stripPrefix (p # ps) (c # cs) = (if p = c then stripPrefix ps cs else None)"

definition getMachineMatch :: "string \<Rightarrow> string option" where
  "getMachineMatch p =
     (case stripPrefix ''/machine/'' p of
        None \<Rightarrow> None
      | Some rest \<Rightarrow> if rest \<noteq> [] \<and> list_all idChar rest then Some rest else None)"

definition startMachineMatch :: "string \<Rightarrow> string option" where
  "startMachineMatch p =
     (case stripPrefix ''/machine/'' p of
        None \<Rightarrow> None
      | Some rest \<Rightarrow>
          if takeWhile idChar rest \<noteq> [] \<and> dropWhile idChar rest = ''/start''
          then Some (takeWhile idChar rest) else None)"

text \<open>
  \<^verbatim>\<open>handle\<close>: the token is checked first, and an invalid one throws before anything
  is touched. Then the three routes are tried in the order of the source; a request
  that takes none of them gets \<^verbatim>\<open>INTERNAL_SERVER_ERROR\<close> with \<^verbatim>\<open>machine: null\<close>.
\<close>

definition handle ::
  "'s MachineStateTable \<Rightarrow> SmartMachineClient \<Rightarrow> (string \<Rightarrow> bool) \<Rightarrow> RequestModel
     \<Rightarrow> 's World \<Rightarrow> (Thrown + MachineResponseModel) \<times> 's World"
where
  "handle T startCycle validateToken request w =
     (case checkToken validateToken (token request) of
        Some e \<Rightarrow> (Inl e, w)
      | None \<Rightarrow>
          if httpMethod request = ''POST'' \<and> path request = ''/machine/request''
          then map_prod Inr id
                 (handleRequestMachine T (reqLocationId request) (reqJobId request) w)
          else
            (case (httpMethod request = ''GET'', getMachineMatch (path request)) of
               (True, Some mId) \<Rightarrow> map_prod Inr id (handleGetMachine T mId w)
             | _ \<Rightarrow>
                 (case (httpMethod request = ''POST'', startMachineMatch (path request)) of
                    (True, Some mId) \<Rightarrow>
                      map_prod Inr id (handleStartMachine T startCycle mId w)
                  | _ \<Rightarrow>
                      (Inr \<lparr>statusCode = INTERNAL_SERVER_ERROR, machine = Null\<rparr>, w))))"

section \<open>The record store of the specification\<close>

text \<open>
  Modelled from the spec: the table class (\<^verbatim>\<open>database/table.ts\<close>) is not among the
  sources. The specification describes it as a durable key-value store of machine
  records, keyed by machine id and queryable by location, with the four operations
  \<^verbatim>\<open>listAtLocation(locationId) -> sequence<Record>\<close>, \<^verbatim>\<open>getById(machineId) ->
  Optional<Record>\<close>, \<^verbatim>\<open>updateStatus(machineId, status) -> void\<close> and
  \<^verbatim>\<open>updateJobId(machineId, jobId) -> void\<close>, each a field update of the record with
  that id; the cache owns a copy of what it is given. The store is the list of its
  records in listing order. A record is found by its \<^verbatim>\<open>machineId\<close>, and an update
  changes the one field of every record with the id and nothing else. The
  specification does not say whether a record handed out follows later updates.
  \<open>MachineRecordStore\<close> hands out copies: a document shows what it showed when read.
  \<open>LiveRecordStore\<close> is the same store handing out the objects it holds and updating
  them in place: a document shows the fields of the stored record with its id.
\<close>

definition MachineRecordStore :: "MachineStateDocument list MachineStateTable" where
  "MachineRecordStore =
     \<lparr>listMachinesAtLocation = (\<lambda>s loc. filter (\<lambda>d. locationId d = loc) s),
      getMachine = (\<lambda>s mId. find (\<lambda>d. machineId d = mId) s),
      updateMachineStatus =
        (\<lambda>s mId st. map (\<lambda>d. if machineId d = mId then d\<lparr>status := st\<rparr> else d) s),
      updateMachineJobId =
        (\<lambda>s mId j. map (\<lambda>d. if machineId d = mId then d\<lparr>jobId := Some j\<rparr> else d) s),
      fieldsShown = (\<lambda>s d. (status d, jobId d))\<rparr>"

definition LiveRecordStore :: "MachineStateDocument list MachineStateTable" where
  "LiveRecordStore =
     MachineRecordStore
       \<lparr>fieldsShown :=
          (\<lambda>s d. case find (\<lambda>x. machineId x = machineId d) s of
                   None \<Rightarrow> (status d, jobId d)
                 | Some x \<Rightarrow> (status x, jobId x))\<rparr>"

text \<open>
  The invariant of the data model: an available machine holds no job.
\<close>

definition jobInvariant :: "MachineStateDocument list \<Rightarrow> bool" where
  "jobInvariant s \<longleftrightarrow> (\<forall>d \<in> set s. status d = AVAILABLE \<longrightarrow> jobId d = None)"

text \<open>
  A store that is not consistent, for the \<^verbatim>\<open>INTERNAL_SERVER_ERROR\<close> returns of
  \<^verbatim>\<open>handleStartMachine\<close>: its status update loses the record, so the read that
  follows the update finds nothing.
\<close>

definition LosingStore :: "MachineStateDocument list MachineStateTable" where
  "LosingStore =
     MachineRecordStore
       \<lparr>updateMachineStatus := (\<lambda>s mId st. filter (\<lambda>d. machineId d \<noteq> mId) s)\<rparr>"

subsection \<open>The machines of the scenarios\<close>

definition m1 :: MachineStateDocument where
  "m1 = \<lparr>machineId = ''m1'', locationId = ''L1'', status = AVAILABLE, jobId = None\<rparr>"

definition m2 :: MachineStateDocument where
  "m2 = \<lparr>machineId = ''m2'', locationId = ''L1'', status = RUNNING, jobId = Some ''j0''\<rparr>"

definition m3 :: MachineStateDocument where
  "m3 = \<lparr>machineId = ''m3'', locationId = ''L1'', status = AWAITING_DROPOFF,
          jobId = Some ''j3''\<rparr>"

definition m4 :: MachineStateDocument where
  "m4 = \<lparr>machineId = ''m4'', locationId = ''L1'', status = AVAILABLE, jobId = None\<rparr>"

text \<open>
  Scenario A of the specification: location \<^verbatim>\<open>L1\<close> with \<^verbatim>\<open>m1\<close> available and
  \<^verbatim>\<open>m2\<close> running, nothing cached. The second world has two more machines, one
  awaiting drop-off and a second available one listed after \<^verbatim>\<open>m1\<close>.
\<close>

definition worldA :: "MachineStateDocument list World" where
  "worldA = \<lparr>table = [m1, m2], cache = Map.empty, startCycleCalls = []\<rparr>"

definition world0 :: "MachineStateDocument list World" where
  "world0 = \<lparr>table = [m2, m1, m3, m4], cache = Map.empty, startCycleCalls = []\<rparr>"

section \<open>Facts about the collaborators\<close>

lemma find_first_match:
  "\<forall>x \<in> set pre. \<not> P x \<Longrightarrow> P d \<Longrightarrow> find P (pre @ d # post) = Some d"
  by (induction pre) auto

lemma find_finds_member: "find P xs = Some d \<Longrightarrow> d \<in> set xs \<and> P d"
  by (induction xs) (auto split: if_splits)

text \<open>
  The record store answers a read after a status update with the record it held and the
  new status.
\<close>

lemma store_getMachine_after_status:
  "getMachine MachineRecordStore s mId = Some m \<Longrightarrow>
   getMachine MachineRecordStore (updateMachineStatus MachineRecordStore s mId st) mId
     = Some (m\<lparr>status := st\<rparr>)"
  unfolding MachineRecordStore_def
  by (induction s) (auto split: if_splits)

lemma store_status_update_invariant:
  assumes "jobInvariant s" and "st \<noteq> AVAILABLE"
  shows "jobInvariant (updateMachineStatus MachineRecordStore s mId st)"
  using assms unfolding jobInvariant_def MachineRecordStore_def by auto

lemma store_job_update_invariant:
  assumes "jobInvariant s"
    and "\<forall>d \<in> set s. machineId d = mId \<longrightarrow> status d \<noteq> AVAILABLE"
  shows "jobInvariant (updateMachineJobId MachineRecordStore s mId j)"
  using assms unfolding jobInvariant_def MachineRecordStore_def by auto

lemma store_status_update_marks:
  assumes "d \<in> set (updateMachineStatus MachineRecordStore s mId st)"
    and "machineId d = mId"
  shows "status d = st"
proof -
  from assms(1) obtain x where x: "x \<in> set s"
    and d: "d = (if machineId x = mId then x\<lparr>status := st\<rparr> else x)"
    unfolding MachineRecordStore_def by force
  show ?thesis
  proof (cases "machineId x = mId")
    case True
    with d show ?thesis by simp
  next
    case False
    with d assms(2) show ?thesis by simp
  qed
qed

lemma store_listing_subset:
  "set (listMachinesAtLocation MachineRecordStore s loc) \<subseteq> set s"
  unfolding MachineRecordStore_def by auto

section \<open>Reservation\<close>

text \<open>
  Claim C3. On the record store, a reservation keeps the invariant: when every
  available machine of the store holds no job before \<^verbatim>\<open>handleRequestMachine\<close>, the
  same is true of the store afterwards, and so of every record listed at the requested
  location. The reserved machine leaves \<^verbatim>\<open>AVAILABLE\<close> with the first of the two
  writes, before its job id is set; no other record is changed.
\<close>

theorem reserve_preserves_jobInvariant:
  assumes inv: "jobInvariant (table w)"
    and run: "handleRequestMachine MachineRecordStore locId jId w = (r, w')"
  shows "jobInvariant (table w') \<and>
         (\<forall>d \<in> set (listMachinesAtLocation MachineRecordStore (table w') locId).
            status d = AVAILABLE \<longrightarrow> jobId d = None)"
proof -
  have after: "jobInvariant (table w')"
  proof (cases "find (\<lambda>m. status m = AVAILABLE)
                  (listMachinesAtLocation MachineRecordStore (table w) locId)")
    case None
    with run have "w' = w" by (simp add: handleRequestMachine_def)
    with inv show ?thesis by simp
  next
    case (Some a)
    let ?t1 = "updateMachineStatus MachineRecordStore (table w) (machineId a) AWAITING_DROPOFF"
    from Some run
    have tw: "table w' = updateMachineJobId MachineRecordStore ?t1 (machineId a) jId"
      by (auto simp: handleRequestMachine_def Let_def)
    have "jobInvariant ?t1"
      using inv by (rule store_status_update_invariant) simp
    moreover have "\<forall>d \<in> set ?t1. machineId d = machineId a \<longrightarrow> status d \<noteq> AVAILABLE"
      using store_status_update_marks [of _ "table w" "machineId a" AWAITING_DROPOFF] by auto
    ultimately show ?thesis
      unfolding tw by (rule store_job_update_invariant)
  qed
  then have "\<forall>d \<in> set (listMachinesAtLocation MachineRecordStore (table w') locId).
            status d = AVAILABLE \<longrightarrow> jobId d = None"
    using store_listing_subset [of "table w'" locId] unfolding jobInvariant_def by blast
  with after show ?thesis by simp
qed

theorem reserve_preserves_jobInvariant_witness:
  "jobInvariant (table world0) \<and>
   jobInvariant (table (snd (handleRequestMachine MachineRecordStore ''L1'' ''j1'' world0))) \<and>
   table (snd (handleRequestMachine MachineRecordStore ''L1'' ''j1'' world0)) =
     [m2, m1\<lparr>status := AWAITING_DROPOFF, jobId := Some ''j1''\<rparr>, m3, m4]"
proof -
  have inv: "jobInvariant (table world0)"
    by (simp add: jobInvariant_def world0_def m1_def m2_def m3_def m4_def)
  have tab: "table (snd (handleRequestMachine MachineRecordStore ''L1'' ''j1'' world0)) =
     [m2, m1\<lparr>status := AWAITING_DROPOFF, jobId := Some ''j1''\<rparr>, m3, m4]"
    by (simp add: handleRequestMachine_def Let_def MachineRecordStore_def world0_def
        m1_def m2_def m3_def m4_def)
  from reserve_preserves_jobInvariant [of world0 "''L1''" "''j1''", OF inv surjective_pairing]
  have "jobInvariant (table (snd (handleRequestMachine MachineRecordStore ''L1'' ''j1'' world0)))"
    by (rule conjunct1)
  with inv tab show ?thesis by simp
qed

text \<open>
  Claim C7. When no machine listed at the location is \<^verbatim>\<open>AVAILABLE\<close>,
  \<^verbatim>\<open>handleRequestMachine\<close> returns \<^verbatim>\<open>NOT_FOUND\<close> and leaves the table, the cache and
  the client untouched, whatever the table is.
\<close>

theorem reserve_none_available:
  assumes "\<forall>d \<in> set (listMachinesAtLocation T (table w) locId). status d \<noteq> AVAILABLE"
  shows "handleRequestMachine T locId jId w =
           (\<lparr>statusCode = NOT_FOUND, machine = Omitted\<rparr>, w)"
proof -
  from assms
  have "find (\<lambda>m. status m = AVAILABLE) (listMachinesAtLocation T (table w) locId) = None"
    by (simp add: find_None_iff)
  then show ?thesis by (simp add: handleRequestMachine_def)
qed

theorem reserve_none_available_witness:
  "handleRequestMachine MachineRecordStore ''L1'' ''j1'' (world0\<lparr>table := [m2, m3]\<rparr>) =
     (\<lparr>statusCode = NOT_FOUND, machine = Omitted\<rparr>, world0\<lparr>table := [m2, m3]\<rparr>)"
  using reserve_none_available
          [of MachineRecordStore "world0\<lparr>table := [m2, m3]\<rparr>" "''L1''" "''j1''"]
  by (simp add: MachineRecordStore_def m2_def m3_def)

text \<open>
  Claim C8. The machine reserved is the first \<^verbatim>\<open>AVAILABLE\<close> one of the listing: when
  the listing is \<open>pre @ d # post\<close> with no available machine in \<open>pre\<close> and \<open>d\<close>
  available, both writes go to the id of \<open>d\<close>, and \<open>d\<close> is the document cached
  under its id and returned, with the status and job id it shows after the writes.
\<close>

theorem reserve_selects_first_available:
  assumes "listMachinesAtLocation T (table w) locId = pre @ d # post"
    and "\<forall>x \<in> set pre. status x \<noteq> AVAILABLE"
    and "status d = AVAILABLE"
  shows "handleRequestMachine T locId jId w =
     (let t2 = updateMachineJobId T
                 (updateMachineStatus T (table w) (machineId d) AWAITING_DROPOFF)
                 (machineId d) jId;
          held = d\<lparr>status := fst (fieldsShown T t2 d), jobId := snd (fieldsShown T t2 d)\<rparr>
      in (\<lparr>statusCode = OK, machine = Machine held\<rparr>,
          w\<lparr>table := t2, cache := (cache w)(machineId d \<mapsto> held)\<rparr>))"
proof -
  from assms
  have "find (\<lambda>m. status m = AVAILABLE) (listMachinesAtLocation T (table w) locId) = Some d"
    by (simp add: find_first_match)
  then show ?thesis by (simp add: handleRequestMachine_def Let_def)
qed

theorem reserve_selects_first_available_witness:
  "listMachinesAtLocation MachineRecordStore (table world0) ''L1'' = [m2] @ m1 # [m3, m4] \<and>
   status m2 \<noteq> AVAILABLE \<and> status m1 = AVAILABLE \<and> status m4 = AVAILABLE \<and>
   fst (handleRequestMachine MachineRecordStore ''L1'' ''j9'' world0) =
     \<lparr>statusCode = OK, machine = Machine m1\<rparr> \<and>
   table (snd (handleRequestMachine MachineRecordStore ''L1'' ''j9'' world0)) =
     [m2, m1\<lparr>status := AWAITING_DROPOFF, jobId := Some ''j9''\<rparr>, m3, m4]"
proof -
  have listing:
    "listMachinesAtLocation MachineRecordStore (table world0) ''L1'' = [m2] @ m1 # [m3, m4]"
    by (simp add: MachineRecordStore_def world0_def m1_def m2_def m3_def m4_def)
  have pre: "\<forall>x \<in> set [m2]. status x \<noteq> AVAILABLE" by (simp add: m2_def)
  have av: "status m1 = AVAILABLE" by (simp add: m1_def)
  note run = reserve_selects_first_available [OF listing pre av, of "''j9''"]
  have "table (snd (handleRequestMachine MachineRecordStore ''L1'' ''j9'' world0)) =
     [m2, m1\<lparr>status := AWAITING_DROPOFF, jobId := Some ''j9''\<rparr>, m3, m4]"
    unfolding run
    by (simp add: MachineRecordStore_def Let_def world0_def m1_def m2_def m3_def m4_def)
  moreover have "fst (handleRequestMachine MachineRecordStore ''L1'' ''j9'' world0) =
     \<lparr>statusCode = OK, machine = Machine m1\<rparr>"
    unfolding run by (simp add: MachineRecordStore_def Let_def m1_def)
  moreover have "status m2 \<noteq> AVAILABLE" "status m4 = AVAILABLE"
    by (simp_all add: m2_def m4_def)
  ultimately show ?thesis using listing av by simp
qed

section \<open>Starting a cycle\<close>

text \<open>
  Claim C4. When the table has the machine and its status is not
  \<^verbatim>\<open>AWAITING_DROPOFF\<close>, \<^verbatim>\<open>handleStartMachine\<close> returns \<^verbatim>\<open>BAD_REQUEST\<close> with the
  document it read, and the world is the one it started from: no call of
  \<^verbatim>\<open>startCycle\<close> is recorded, the table is not written and the cache is not written.
\<close>

theorem start_rejects_other_status:
  assumes "getMachine T (table w) mId = Some m" and "status m \<noteq> AWAITING_DROPOFF"
  shows "handleStartMachine T startCycle mId w =
           (\<lparr>statusCode = BAD_REQUEST, machine = Machine m\<rparr>, w)"
  using assms by (simp add: handleStartMachine_def)

theorem start_rejects_other_status_witness:
  "getMachine MachineRecordStore (table world0) ''m2'' = Some m2 \<and> status m2 = RUNNING \<and>
   handleStartMachine MachineRecordStore (\<lambda>_. True) ''m2'' world0 =
     (\<lparr>statusCode = BAD_REQUEST, machine = Machine m2\<rparr>, world0)"
proof -
  have rd: "getMachine MachineRecordStore (table world0) ''m2'' = Some m2"
    by (simp add: MachineRecordStore_def world0_def m2_def)
  have st: "status m2 \<noteq> AWAITING_DROPOFF" by (simp add: m2_def)
  have "status m2 = RUNNING" by (simp add: m2_def)
  with rd start_rejects_other_status [OF rd st, of "\<lambda>_. True"] show ?thesis by simp
qed

text \<open>
  Claim C5. When the machine awaits drop-off and \<^verbatim>\<open>startCycle\<close> throws, the handler
  has called the client once, writes \<^verbatim>\<open>ERROR\<close> to the table and reads the machine
  again. A document read is put into the cache and returned with
  \<^verbatim>\<open>HARDWARE_ERROR\<close>; when nothing is read the response is
  \<^verbatim>\<open>INTERNAL_SERVER_ERROR\<close> and the cache is not written.
\<close>

theorem start_command_failure:
  assumes "getMachine T (table w) mId = Some m" and "status m = AWAITING_DROPOFF"
    and "\<not> startCycle mId"
  shows "handleStartMachine T startCycle mId w =
     (let t1 = updateMachineStatus T (table w) mId ERROR;
          w1 = w\<lparr>table := t1, startCycleCalls := startCycleCalls w @ [mId]\<rparr>
      in case getMachine T t1 mId of
           None \<Rightarrow> (\<lparr>statusCode = INTERNAL_SERVER_ERROR, machine = Omitted\<rparr>, w1)
         | Some errorMachine \<Rightarrow>
             (\<lparr>statusCode = HARDWARE_ERROR, machine = Machine errorMachine\<rparr>,
              w1\<lparr>cache := (cache w)(mId \<mapsto> errorMachine)\<rparr>))"
  using assms by (simp add: handleStartMachine_def Let_def split: option.split)

theorem start_command_failure_witness:
  "handleStartMachine MachineRecordStore (\<lambda>_. False) ''m3'' world0 =
     (\<lparr>statusCode = HARDWARE_ERROR, machine = Machine (m3\<lparr>status := ERROR\<rparr>)\<rparr>,
      \<lparr>table = [m2, m1, m3\<lparr>status := ERROR\<rparr>, m4],
       cache = [''m3'' \<mapsto> m3\<lparr>status := ERROR\<rparr>],
       startCycleCalls = [''m3'']\<rparr>) \<and>
   handleStartMachine LosingStore (\<lambda>_. False) ''m3'' world0 =
     (\<lparr>statusCode = INTERNAL_SERVER_ERROR, machine = Omitted\<rparr>,
      \<lparr>table = [m2, m1, m4], cache = Map.empty, startCycleCalls = [''m3'']\<rparr>)"
proof -
  have rd: "getMachine MachineRecordStore (table world0) ''m3'' = Some m3"
    by (simp add: MachineRecordStore_def world0_def m1_def m2_def m3_def)
  have rd': "getMachine LosingStore (table world0) ''m3'' = Some m3"
    by (simp add: LosingStore_def MachineRecordStore_def world0_def m1_def m2_def m3_def)
  have st: "status m3 = AWAITING_DROPOFF" by (simp add: m3_def)
  have fail: "\<not> (\<lambda>_. False) ''m3''" by simp
  from start_command_failure [OF rd st fail] start_command_failure [OF rd' st fail]
  show ?thesis
    by (simp add: LosingStore_def MachineRecordStore_def world0_def m1_def m2_def m3_def m4_def)
qed

text \<open>
  Claim C6. When the machine awaits drop-off and \<^verbatim>\<open>startCycle\<close> returns, the handler
  writes \<^verbatim>\<open>RUNNING\<close> to the table and reads the machine again. A document read is put
  into the cache and returned with \<^verbatim>\<open>OK\<close>; when nothing is read the response is
  \<^verbatim>\<open>INTERNAL_SERVER_ERROR\<close> and the cache is not written.
\<close>

theorem start_command_success:
  assumes "getMachine T (table w) mId = Some m" and "status m = AWAITING_DROPOFF"
    and "startCycle mId"
  shows "handleStartMachine T startCycle mId w =
     (let t1 = updateMachineStatus T (table w) mId RUNNING;
          w1 = w\<lparr>table := t1, startCycleCalls := startCycleCalls w @ [mId]\<rparr>
      in case getMachine T t1 mId of
           None \<Rightarrow> (\<lparr>statusCode = INTERNAL_SERVER_ERROR, machine = Omitted\<rparr>, w1)
         | Some updatedMachine \<Rightarrow>
             (\<lparr>statusCode = OK, machine = Machine updatedMachine\<rparr>,
              w1\<lparr>cache := (cache w)(mId \<mapsto> updatedMachine)\<rparr>))"
  using assms by (simp add: handleStartMachine_def Let_def split: option.split)

theorem start_command_success_witness:
  "handleStartMachine MachineRecordStore (\<lambda>_. True) ''m3'' world0 =
     (\<lparr>statusCode = OK, machine = Machine (m3\<lparr>status := RUNNING\<rparr>)\<rparr>,
      \<lparr>table = [m2, m1, m3\<lparr>status := RUNNING\<rparr>, m4],
       cache = [''m3'' \<mapsto> m3\<lparr>status := RUNNING\<rparr>],
       startCycleCalls = [''m3'']\<rparr>) \<and>
   handleStartMachine LosingStore (\<lambda>_. True) ''m3'' world0 =
     (\<lparr>statusCode = INTERNAL_SERVER_ERROR, machine = Omitted\<rparr>,
      \<lparr>table = [m2, m1, m4], cache = Map.empty, startCycleCalls = [''m3'']\<rparr>)"
proof -
  have rd: "getMachine MachineRecordStore (table world0) ''m3'' = Some m3"
    by (simp add: MachineRecordStore_def world0_def m1_def m2_def m3_def)
  have rd': "getMachine LosingStore (table world0) ''m3'' = Some m3"
    by (simp add: LosingStore_def MachineRecordStore_def world0_def m1_def m2_def m3_def)
  have st: "status m3 = AWAITING_DROPOFF" by (simp add: m3_def)
  have ok: "(\<lambda>_. True) ''m3''" by simp
  from start_command_success [OF rd st ok] start_command_success [OF rd' st ok]
  show ?thesis
    by (simp add: LosingStore_def MachineRecordStore_def world0_def m1_def m2_def m3_def m4_def)
qed

text \<open>
  On the record store the second read never fails, and the document it returns is the
  one read first with the status just written: \<^verbatim>\<open>RUNNING\<close> after a successful
  command, \<^verbatim>\<open>ERROR\<close> after a failed one.
\<close>

lemma start_on_record_store:
  assumes "getMachine MachineRecordStore (table w) mId = Some m"
    and "status m = AWAITING_DROPOFF"
  shows "handleStartMachine MachineRecordStore startCycle mId w =
     (let st = (if startCycle mId then RUNNING else ERROR);
          m' = m\<lparr>status := st\<rparr>
      in (\<lparr>statusCode = (if startCycle mId then OK else HARDWARE_ERROR), machine = Machine m'\<rparr>,
          \<lparr>table = updateMachineStatus MachineRecordStore (table w) mId st,
           cache = (cache w)(mId \<mapsto> m'),
           startCycleCalls = startCycleCalls w @ [mId]\<rparr>))"
  using assms store_getMachine_after_status [OF assms(1)]
  by (simp add: handleStartMachine_def Let_def)

section \<open>Reading a machine's state\<close>

text \<open>
  Claim C9. On a cache miss \<^verbatim>\<open>handleGetMachine\<close> asks the table. A machine the
  table does not have gives \<^verbatim>\<open>NOT_FOUND\<close> and the world is unchanged, so the cache
  gets no entry; a machine the table has is put into the cache under the requested id
  and returned with \<^verbatim>\<open>OK\<close>.
\<close>

theorem getMachine_cache_miss:
  assumes "cache w mId = None"
  shows "(getMachine T (table w) mId = None \<longrightarrow>
            handleGetMachine T mId w = (\<lparr>statusCode = NOT_FOUND, machine = Omitted\<rparr>, w)) \<and>
         (\<forall>m. getMachine T (table w) mId = Some m \<longrightarrow>
            handleGetMachine T mId w =
              (\<lparr>statusCode = OK, machine = Machine m\<rparr>, w\<lparr>cache := (cache w)(mId \<mapsto> m)\<rparr>))"
  using assms by (simp add: handleGetMachine_def)

theorem getMachine_cache_miss_witness:
  "handleGetMachine MachineRecordStore ''m9'' world0 =
     (\<lparr>statusCode = NOT_FOUND, machine = Omitted\<rparr>, world0) \<and>
   cache (snd (handleGetMachine MachineRecordStore ''m9'' world0)) ''m9'' = None \<and>
   handleGetMachine MachineRecordStore ''m2'' world0 =
     (\<lparr>statusCode = OK, machine = Machine m2\<rparr>, world0\<lparr>cache := [''m2'' \<mapsto> m2]\<rparr>)"
proof -
  have miss9: "cache world0 ''m9'' = None" and miss2: "cache world0 ''m2'' = None"
    by (simp_all add: world0_def)
  have no9: "getMachine MachineRecordStore (table world0) ''m9'' = None"
    by (simp add: MachineRecordStore_def world0_def m1_def m2_def m3_def m4_def)
  have has2: "getMachine MachineRecordStore (table world0) ''m2'' = Some m2"
    by (simp add: MachineRecordStore_def world0_def m2_def)
  have empty: "cache world0 = Map.empty" by (simp add: world0_def)
  from getMachine_cache_miss [OF miss9, of MachineRecordStore]
       getMachine_cache_miss [OF miss2, of MachineRecordStore] no9 has2 miss9 empty
  show ?thesis by simp
qed

section \<open>Routing of requests\<close>

text \<open>
  What the two matchers accept, in the words of the regular expressions: the path is
  \<^verbatim>\<open>/machine/\<close>, a non-empty id of letters, digits and hyphens, and for the start
  route \<^verbatim>\<open>/start\<close>; the id is the group captured.
\<close>

lemma stripPrefix_Some_iff: "stripPrefix p s = Some r \<longleftrightarrow> s = p @ r"
  by (induction p s rule: stripPrefix.induct) auto

lemma slash_not_idChar: "\<not> idChar CHR ''/''"
  by (simp add: idChar_def)

lemma getMachineMatch_Some_iff:
  "getMachineMatch p = Some i \<longleftrightarrow> p = ''/machine/'' @ i \<and> i \<noteq> [] \<and> list_all idChar i"
proof (cases "stripPrefix ''/machine/'' p")
  case None
  then have "\<And>r. p \<noteq> ''/machine/'' @ r"
    using stripPrefix_Some_iff [of "''/machine/''" p] by auto
  with None show ?thesis by (auto simp: getMachineMatch_def)
next
  case (Some rest)
  then have "p = ''/machine/'' @ rest" by (simp only: stripPrefix_Some_iff)
  with Some show ?thesis by (auto simp: getMachineMatch_def)
qed

lemma id_then_start:
  "takeWhile idChar rest = i \<and> dropWhile idChar rest = ''/start''
     \<longleftrightarrow> rest = i @ ''/start'' \<and> list_all idChar i"
proof
  assume a: "takeWhile idChar rest = i \<and> dropWhile idChar rest = ''/start''"
  have "rest = takeWhile idChar rest @ dropWhile idChar rest" by simp
  with a have "rest = i @ ''/start''" by simp
  moreover from a have "list_all idChar i"
    by (auto simp: list_all_iff dest: set_takeWhileD)
  ultimately show "rest = i @ ''/start'' \<and> list_all idChar i" by simp
next
  assume b: "rest = i @ ''/start'' \<and> list_all idChar i"
  then have all: "\<forall>x \<in> set i. idChar x" by (simp add: list_all_iff)
  from b all have "takeWhile idChar rest = i"
    by (simp add: takeWhile_append2 slash_not_idChar)
  moreover from b all have "dropWhile idChar rest = ''/start''"
    by (simp add: dropWhile_append2 slash_not_idChar)
  ultimately show "takeWhile idChar rest = i \<and> dropWhile idChar rest = ''/start''" by simp
qed

lemma startMachineMatch_Some_iff:
  "startMachineMatch p = Some i \<longleftrightarrow>
     p = ''/machine/'' @ i @ ''/start'' \<and> i \<noteq> [] \<and> list_all idChar i"
proof (cases "stripPrefix ''/machine/'' p")
  case None
  then have "\<And>r. p \<noteq> ''/machine/'' @ r"
    using stripPrefix_Some_iff [of "''/machine/''" p] by auto
  with None show ?thesis by (auto simp: startMachineMatch_def)
next
  case (Some rest)
  then have p: "p = ''/machine/'' @ rest" by (simp only: stripPrefix_Some_iff)
  have "startMachineMatch p = Some i \<longleftrightarrow>
          i \<noteq> [] \<and> (takeWhile idChar rest = i \<and> dropWhile idChar rest = ''/start'')"
    using Some by (auto simp: startMachineMatch_def)
  also have "\<dots> \<longleftrightarrow> i \<noteq> [] \<and> (rest = i @ ''/start'' \<and> list_all idChar i)"
    by (simp only: id_then_start)
  also have "\<dots> \<longleftrightarrow> p = ''/machine/'' @ i @ ''/start'' \<and> i \<noteq> [] \<and> list_all idChar i"
    using p by auto
  finally show ?thesis .
qed

text \<open>
  Claim C10. A request with a valid token that takes none of the three routes
  (\<^verbatim>\<open>POST /machine/request\<close>, \<^verbatim>\<open>GET /machine/{id}\<close>, \<^verbatim>\<open>POST /machine/{id}/start\<close>,
  an id being a non-empty run of letters, digits and hyphens) is answered with
  \<^verbatim>\<open>INTERNAL_SERVER_ERROR\<close> and \<^verbatim>\<open>machine: null\<close>, and the world is unchanged:
  neither the table nor the cache is written.
\<close>

theorem handle_no_route:
  assumes tok: "validateToken (token request)"
    and r1: "\<not> (httpMethod request = ''POST'' \<and> path request = ''/machine/request'')"
    and r2: "\<not> (httpMethod request = ''GET'' \<and>
               (\<exists>i. i \<noteq> [] \<and> list_all idChar i \<and> path request = ''/machine/'' @ i))"
    and r3: "\<not> (httpMethod request = ''POST'' \<and>
               (\<exists>i. i \<noteq> [] \<and> list_all idChar i \<and> path request = ''/machine/'' @ i @ ''/start''))"
  shows "handle T startCycle validateToken request w =
           (Inr \<lparr>statusCode = INTERNAL_SERVER_ERROR, machine = Null\<rparr>, w)"
proof -
  from r2 have g: "httpMethod request = ''GET'' \<Longrightarrow> getMachineMatch (path request) = None"
    using getMachineMatch_Some_iff [of "path request"] by (cases "getMachineMatch (path request)") auto
  from r3 have s: "httpMethod request = ''POST'' \<Longrightarrow> startMachineMatch (path request) = None"
    using startMachineMatch_Some_iff [of "path request"]
    by (cases "startMachineMatch (path request)") auto
  show ?thesis
  proof (cases "httpMethod request = ''GET''")
    case True
    with tok r1 g s show ?thesis
      by (simp add: handle_def checkToken_def split: option.split bool.split)
  next
    case False
    with tok r1 g s show ?thesis
      by (cases "httpMethod request = ''POST''")
         (simp_all add: handle_def checkToken_def split: option.split bool.split)
  qed
qed

theorem handle_no_route_witness:
  "handle MachineRecordStore (\<lambda>_. True) (\<lambda>t. t = ''secret'')
      \<lparr>httpMethod = ''GET'', path = ''/machine/m3/start'', token = ''secret'',
       reqLocationId = ''L1'', reqJobId = ''j1''\<rparr> world0 =
     (Inr \<lparr>statusCode = INTERNAL_SERVER_ERROR, machine = Null\<rparr>, world0) \<and>
   handle MachineRecordStore (\<lambda>_. True) (\<lambda>t. t = ''secret'')
      \<lparr>httpMethod = ''POST'', path = ''/machine/m3'', token = ''secret'',
       reqLocationId = ''L1'', reqJobId = ''j1''\<rparr> world0 =
     (Inr \<lparr>statusCode = INTERNAL_SERVER_ERROR, machine = Null\<rparr>, world0) \<and>
   handle MachineRecordStore (\<lambda>_. True) (\<lambda>t. t = ''secret'')
      \<lparr>httpMethod = ''DELETE'', path = ''/machine/request'', token = ''secret'',
       reqLocationId = ''L1'', reqJobId = ''j1''\<rparr> world0 =
     (Inr \<lparr>statusCode = INTERNAL_SERVER_ERROR, machine = Null\<rparr>, world0)"
proof -
  let ?h = "handle MachineRecordStore (\<lambda>_. True) (\<lambda>t. t = ''secret'')"
  let ?a = "\<lparr>httpMethod = ''GET'', path = ''/machine/m3/start'', token = ''secret'',
       reqLocationId = ''L1'', reqJobId = ''j1''\<rparr>"
  let ?b = "\<lparr>httpMethod = ''POST'', path = ''/machine/m3'', token = ''secret'',
       reqLocationId = ''L1'', reqJobId = ''j1''\<rparr>"
  let ?c = "\<lparr>httpMethod = ''DELETE'', path = ''/machine/request'', token = ''secret'',
       reqLocationId = ''L1'', reqJobId = ''j1''\<rparr>"
  have no_get: "\<not> (\<exists>i. i \<noteq> [] \<and> list_all idChar i \<and> ''/machine/m3/start'' = ''/machine/'' @ i)"
    by (auto simp: idChar_def)
  have no_start: "\<not> (\<exists>i. i \<noteq> [] \<and> list_all idChar i \<and> ''/machine/m3'' = ''/machine/'' @ i @ ''/start'')"
    by (auto simp: append_eq_Cons_conv)
  have "?h ?a world0 = (Inr \<lparr>statusCode = INTERNAL_SERVER_ERROR, machine = Null\<rparr>, world0)"
    using no_get by (intro handle_no_route) simp_all
  moreover
  have "?h ?b world0 = (Inr \<lparr>statusCode = INTERNAL_SERVER_ERROR, machine = Null\<rparr>, world0)"
    using no_start by (intro handle_no_route) simp_all
  moreover
  have "?h ?c world0 = (Inr \<lparr>statusCode = INTERNAL_SERVER_ERROR, machine = Null\<rparr>, world0)"
    by (intro handle_no_route) simp_all
  ultimately show ?thesis by simp
qed

section \<open>The document cached by a reservation\<close>

text \<open>
  \<^verbatim>\<open>handleStartMachine\<close> reads the machine again after its write and caches what it
  read. \<^verbatim>\<open>handleRequestMachine\<close> has no second read: it caches and returns the
  object it found in the listing. For any table, a successful reservation answers with
  a listed document that was \<^verbatim>\<open>AVAILABLE\<close> when read, carrying the status and job id
  the table lets it show after the two writes, and a \<^verbatim>\<open>handleGetMachine\<close> that
  follows finds this document in the cache and returns it.
\<close>

lemma reserve_caches_held_document:
  assumes run: "handleRequestMachine T locId jId w = (r, w')" and ok: "statusCode r = OK"
  shows "\<exists>d. d \<in> set (listMachinesAtLocation T (table w) locId) \<and> status d = AVAILABLE \<and>
           (let held = d\<lparr>status := fst (fieldsShown T (table w') d),
                          jobId := snd (fieldsShown T (table w') d)\<rparr>
            in machine r = Machine held \<and> cache w' (machineId d) = Some held \<and>
               handleGetMachine T (machineId d) w' =
                 (\<lparr>statusCode = OK, machine = Machine held\<rparr>, w'))"
proof (cases "find (\<lambda>m. status m = AVAILABLE) (listMachinesAtLocation T (table w) locId)")
  case None
  with run ok show ?thesis by (auto simp: handleRequestMachine_def)
next
  case (Some d)
  let ?held = "d\<lparr>status := fst (fieldsShown T (table w') d),
                  jobId := snd (fieldsShown T (table w') d)\<rparr>"
  from Some have mem: "d \<in> set (listMachinesAtLocation T (table w) locId)"
    and av: "status d = AVAILABLE"
    by (auto dest: find_finds_member)
  from Some run have r: "machine r = Machine ?held"
    and c: "cache w' (machineId d) = Some ?held"
    by (auto simp: handleRequestMachine_def Let_def)
  from c have "handleGetMachine T (machineId d) w' =
      (\<lparr>statusCode = OK, machine = Machine ?held\<rparr>, w')"
    by (simp add: handleGetMachine_def)
  with mem av r c show ?thesis unfolding Let_def by blast
qed

text \<open>
  What the table holds after a reservation does not depend on what the documents
  handed out show: the writes are the same for every choice of \<open>fieldsShown\<close>.
\<close>

lemma reserve_table_any_fieldsShown:
  "table (snd (handleRequestMachine (T\<lparr>fieldsShown := f\<rparr>) locId jId w)) =
   table (snd (handleRequestMachine T locId jId w))"
  by (simp add: handleRequestMachine_def Let_def split: option.split)

text \<open>
  The record store after the two writes of a reservation: a machine it held is found
  with the status and the job written.
\<close>

lemma store_getMachine_after_job:
  "getMachine MachineRecordStore s mId = Some m \<Longrightarrow>
   getMachine MachineRecordStore (updateMachineJobId MachineRecordStore s mId j) mId
     = Some (m\<lparr>jobId := Some j\<rparr>)"
  unfolding MachineRecordStore_def
  by (induction s) (auto split: if_splits)

lemma store_getMachine_of_member:
  "a \<in> set s \<Longrightarrow> \<exists>m. getMachine MachineRecordStore s (machineId a) = Some m"
  unfolding MachineRecordStore_def
  by (cases "find (\<lambda>d. machineId d = machineId a) s") (auto simp: find_None_iff)

lemma store_getMachine_after_reservation:
  assumes "a \<in> set s"
  shows "\<exists>m. getMachine MachineRecordStore
               (updateMachineJobId MachineRecordStore
                  (updateMachineStatus MachineRecordStore s (machineId a) st) (machineId a) j)
               (machineId a)
             = Some (m\<lparr>status := st, jobId := Some j\<rparr>)"
proof -
  from assms obtain m where "getMachine MachineRecordStore s (machineId a) = Some m"
    using store_getMachine_of_member by blast
  then have "getMachine MachineRecordStore
               (updateMachineStatus MachineRecordStore s (machineId a) st) (machineId a)
             = Some (m\<lparr>status := st\<rparr>)"
    by (rule store_getMachine_after_status)
  then have "getMachine MachineRecordStore
               (updateMachineJobId MachineRecordStore
                  (updateMachineStatus MachineRecordStore s (machineId a) st) (machineId a) j)
               (machineId a)
             = Some (m\<lparr>status := st, jobId := Some j\<rparr>)"
    by (rule store_getMachine_after_job)
  then show ?thesis by blast
qed

text \<open>
  The document a reservation returns and caches, on the two stores. When the store
  updates the objects it lists in place, the document has the status
  \<^verbatim>\<open>AWAITING_DROPOFF\<close> and the job requested, for every reservation that succeeds.
  When the store lists copies, the document keeps the status \<^verbatim>\<open>AVAILABLE\<close> it was
  found with. Which of the two the handler's table class does is not in
  \<^verbatim>\<open>src/handler/api.ts\<close>.
\<close>

lemma reserve_on_live_store:
  assumes run: "handleRequestMachine LiveRecordStore locId jId w = (r, w')"
    and ok: "statusCode r = OK"
  shows "\<exists>d. machine r = Machine d \<and> cache w' (machineId d) = Some d \<and>
             status d = AWAITING_DROPOFF \<and> jobId d = Some jId"
proof (cases "find (\<lambda>m. status m = AVAILABLE)
                (listMachinesAtLocation LiveRecordStore (table w) locId)")
  case None
  with run ok show ?thesis by (auto simp: handleRequestMachine_def)
next
  case (Some a)
  let ?t2 = "updateMachineJobId MachineRecordStore
               (updateMachineStatus MachineRecordStore (table w) (machineId a) AWAITING_DROPOFF)
               (machineId a) jId"
  from Some have "a \<in> set (listMachinesAtLocation MachineRecordStore (table w) locId)"
    by (auto simp: LiveRecordStore_def dest: find_finds_member)
  then have "a \<in> set (table w)"
    using store_listing_subset by blast
  then obtain m where
    m: "getMachine MachineRecordStore ?t2 (machineId a)
          = Some (m\<lparr>status := AWAITING_DROPOFF, jobId := Some jId\<rparr>)"
    using store_getMachine_after_reservation by blast
  then have "find (\<lambda>x. machineId x = machineId a) ?t2
          = Some (m\<lparr>status := AWAITING_DROPOFF, jobId := Some jId\<rparr>)"
    by (simp add: MachineRecordStore_def)
  then have shown: "fieldsShown LiveRecordStore ?t2 a = (AWAITING_DROPOFF, Some jId)"
    by (simp add: LiveRecordStore_def)
  let ?held = "a\<lparr>status := AWAITING_DROPOFF, jobId := Some jId\<rparr>"
  have ops: "updateMachineStatus LiveRecordStore = updateMachineStatus MachineRecordStore"
    "updateMachineJobId LiveRecordStore = updateMachineJobId MachineRecordStore"
    by (simp_all add: LiveRecordStore_def)
  from Some run shown have "machine r = Machine ?held" "cache w' (machineId ?held) = Some ?held"
    by (auto simp: handleRequestMachine_def Let_def ops)
  moreover have "status ?held = AWAITING_DROPOFF" "jobId ?held = Some jId" by simp_all
  ultimately show ?thesis by blast
qed

lemma reserve_on_copying_store:
  assumes run: "handleRequestMachine MachineRecordStore locId jId w = (r, w')"
    and ok: "statusCode r = OK"
  shows "\<exists>d. machine r = Machine d \<and> cache w' (machineId d) = Some d \<and>
             status d = AVAILABLE"
proof (cases "find (\<lambda>m. status m = AVAILABLE)
                (listMachinesAtLocation MachineRecordStore (table w) locId)")
  case None
  with run ok show ?thesis by (auto simp: handleRequestMachine_def)
next
  case (Some a)
  then have av: "status a = AVAILABLE" by (auto dest: find_finds_member)
  have same: "fieldsShown MachineRecordStore = (\<lambda>s d. (status d, jobId d))"
    by (simp add: MachineRecordStore_def)
  from Some run have "machine r = Machine a" "cache w' (machineId a) = Some a"
    by (auto simp: handleRequestMachine_def Let_def same)
  with av show ?thesis by blast
qed

text \<open>
  Scenario A of the specification on both stores: \<^verbatim>\<open>m1\<close> is reserved for \<^verbatim>\<open>j1\<close> and
  the table holds the updated record; the response, the cache entry and the answer of a
  following \<^verbatim>\<open>handleGetMachine\<close> are the updated record on the store that updates in
  place, and \<^verbatim>\<open>m1\<close> as listed on the store that lists copies.
\<close>

lemma scenarioA_on_live_store:
  "handleRequestMachine LiveRecordStore ''L1'' ''j1'' worldA =
     (\<lparr>statusCode = OK,
       machine = Machine (m1\<lparr>status := AWAITING_DROPOFF, jobId := Some ''j1''\<rparr>)\<rparr>,
      \<lparr>table = [m1\<lparr>status := AWAITING_DROPOFF, jobId := Some ''j1''\<rparr>, m2],
       cache = [''m1'' \<mapsto> m1\<lparr>status := AWAITING_DROPOFF, jobId := Some ''j1''\<rparr>],
       startCycleCalls = []\<rparr>) \<and>
   fst (handleGetMachine LiveRecordStore ''m1''
         (snd (handleRequestMachine LiveRecordStore ''L1'' ''j1'' worldA))) =
     \<lparr>statusCode = OK,
      machine = Machine (m1\<lparr>status := AWAITING_DROPOFF, jobId := Some ''j1''\<rparr>)\<rparr>"
  by (simp add: handleRequestMachine_def handleGetMachine_def Let_def LiveRecordStore_def
      MachineRecordStore_def worldA_def m1_def m2_def)

lemma scenarioA_on_copying_store:
  "handleRequestMachine MachineRecordStore ''L1'' ''j1'' worldA =
     (\<lparr>statusCode = OK, machine = Machine m1\<rparr>,
      \<lparr>table = [m1\<lparr>status := AWAITING_DROPOFF, jobId := Some ''j1''\<rparr>, m2],
       cache = [''m1'' \<mapsto> m1], startCycleCalls = []\<rparr>) \<and>
   fst (handleGetMachine MachineRecordStore ''m1''
         (snd (handleRequestMachine MachineRecordStore ''L1'' ''j1'' worldA))) =
     \<lparr>statusCode = OK, machine = Machine m1\<rparr> \<and>
   status m1 = AVAILABLE \<and> jobId m1 = None"
  by (simp add: handleRequestMachine_def handleGetMachine_def Let_def MachineRecordStore_def
      worldA_def m1_def m2_def)

text \<open>
  After \<^verbatim>\<open>handleStartMachine\<close> has written a status to the record store,
  \<^verbatim>\<open>handleGetMachine\<close> returns the stored document, with the status written.
\<close>

lemma getMachine_after_start_on_record_store:
  assumes rd: "getMachine MachineRecordStore (table w) mId = Some m"
    and st: "status m = AWAITING_DROPOFF"
    and run: "handleStartMachine MachineRecordStore startCycle mId w = (r, w')"
  shows "\<exists>u. handleGetMachine MachineRecordStore mId w' = (\<lparr>statusCode = OK, machine = Machine u\<rparr>, w') \<and>
             getMachine MachineRecordStore (table w') mId = Some u \<and>
             status u = (if startCycle mId then RUNNING else ERROR)"
proof -
  let ?st = "if startCycle mId then RUNNING else ERROR"
  from run start_on_record_store [OF rd st, of startCycle]
  have w': "w' = \<lparr>table = updateMachineStatus MachineRecordStore (table w) mId ?st,
                  cache = (cache w)(mId \<mapsto> m\<lparr>status := ?st\<rparr>),
                  startCycleCalls = startCycleCalls w @ [mId]\<rparr>"
    by (simp add: Let_def)
  have "getMachine MachineRecordStore (table w') mId = Some (m\<lparr>status := ?st\<rparr>)"
    unfolding w' using store_getMachine_after_status [OF rd] by simp
  moreover have "handleGetMachine MachineRecordStore mId w' =
      (\<lparr>statusCode = OK, machine = Machine (m\<lparr>status := ?st\<rparr>)\<rparr>, w')"
    unfolding w' by (simp add: handleGetMachine_def)
  moreover have "status (m\<lparr>status := ?st\<rparr>) = ?st" by simp
  ultimately show ?thesis by blast
qed

end
